theory Spec2Isabelle
  imports Main "HOL-Library.Word"
begin

section \<open>The IBFT extra-data codec of consensus/ibft/extra.go\<close>

text \<open>
  The header's \<open>ExtraData\<close> field is 32 bytes of proposer vanity followed by the RLP
  encoding of an \<open>IstanbulExtra\<close> record (validators, proposer seal, committed seals).
  This theory embeds the functions of \<^verbatim>\<open>extra.go\<close> and the wire codec they call.
\<close>

subsection \<open>Bytes, addresses, headers\<close>

type_synonym byte = "8 word"

text \<open>
  \<^verbatim>\<open>types.Address\<close> is \<^verbatim>\<open>[20]byte\<close>. The model keeps an address as the list of its
  bytes; the properties below say where they need the list to have the length the Go type
  fixes.
\<close>

type_synonym address = "byte list"

definition AddressLength :: nat where
  "AddressLength = 20"

text \<open>
  \<^verbatim>\<open>types.Header\<close>: only \<open>ExtraData\<close> is read or written by this file; every other
  field of the header is the extension part of the record and is carried along unchanged.
\<close>

record Header =
  ExtraData :: "byte list"

text \<open>\<^verbatim>\<open>type IstanbulExtra struct\<close> (extra.go:134).\<close>

record IstanbulExtra =
  Validators :: "address list"
  Seal :: "byte list"
  CommittedSeal :: "byte list list"

definition IstanbulExtraVanity :: nat where
  "IstanbulExtraVanity = 32"

definition IstanbulExtraSeal :: nat where
  "IstanbulExtraSeal = 65"

definition zeroBytes :: "byte list" where
  "zeroBytes = replicate 32 0"

subsection \<open>The wire codec (fastrlp)\<close>

text \<open>
  Modelled from the spec: the wire codec (package \<^verbatim>\<open>fastrlp\<close>: \<^verbatim>\<open>Arena\<close>, \<^verbatim>\<open>Value\<close>,
  \<^verbatim>\<open>Parser\<close>) is an external collaborator whose source is not part of this
  repository. The spec fixes its interface: values are lists, byte strings, null markers and
  null-array markers; \<open>get_elements\<close>, \<open>get_bytes\<close> and \<open>get_fixed_address\<close> fail with a
  typed error on a type mismatch; on the wire a null decodes as the empty byte string and
  the null-array marker as the empty list. The byte layout is RLP.
\<close>

datatype rlp_value =
    Bytes "byte list"
  | Array "rlp_value list"
  | Null
  | ArrayNull

text \<open>The failures of the wire codec.\<close>

datatype rlp_error =
    ErrNoArray
  | ErrNoBytes
  | ErrBadLength nat nat
  | ErrEmptyInput
  | ErrShortInput

text \<open>Modelled from the spec: the constructors of \<^verbatim>\<open>fastrlp.Arena\<close>.\<close>

definition NewArray :: rlp_value where
  "NewArray = Array []"

definition NewBytes :: "byte list \<Rightarrow> rlp_value" where
  "NewBytes b = Bytes b"

definition NewNull :: rlp_value where
  "NewNull = Null"

definition NewNullArray :: rlp_value where
  "NewNullArray = ArrayNull"

text \<open>
  Modelled from the spec: \<^verbatim>\<open>Value.Set\<close> appends an element to a list value (and does
  nothing on a value that is not a list). The Go method mutates its receiver; the model
  returns the new value.
\<close>

fun Set_value :: "rlp_value \<Rightarrow> rlp_value \<Rightarrow> rlp_value" where
  "Set_value (Array a) vv = Array (a @ [vv])"
| "Set_value v vv = v"

text \<open>Modelled from the spec: the decode primitives of \<^verbatim>\<open>fastrlp.Value\<close>.\<close>

fun GetElems :: "rlp_value \<Rightarrow> rlp_error + rlp_value list" where
  "GetElems (Array a) = Inr a"
| "GetElems v = Inl ErrNoArray"

fun GetBytes :: "rlp_value \<Rightarrow> rlp_error + byte list" where
  "GetBytes (Bytes b) = Inr b"
| "GetBytes v = Inl ErrNoBytes"

fun GetAddr :: "rlp_value \<Rightarrow> rlp_error + address" where
  "GetAddr (Bytes b) =
     (if length b \<noteq> AddressLength then Inl (ErrBadLength AddressLength (length b)) else Inr b)"
| "GetAddr v = Inl ErrNoBytes"

subsubsection \<open>Serialisation\<close>

text \<open>The big-endian digits of a length, without leading zero bytes.\<close>

fun putUint :: "nat \<Rightarrow> byte list" where
  "putUint n = (if n = 0 then [] else putUint (n div 256) @ [of_nat (n mod 256)])"

declare putUint.simps [simp del]

text \<open>
  The size prefix of a byte string (\<open>base = 0x80\<close>) or of a list (\<open>base = 0xC0\<close>) whose
  payload is \<open>l\<close> bytes long.
\<close>

definition marshalSize :: "nat \<Rightarrow> nat \<Rightarrow> byte list" where
  "marshalSize base l =
     (if l < 56 then [of_nat (base + l)]
      else of_nat (base + 55 + length (putUint l)) # putUint l)"

text \<open>Modelled from the spec: \<^verbatim>\<open>Value.MarshalTo\<close>, the RLP bytes of a value.\<close>

fun MarshalValue :: "rlp_value \<Rightarrow> byte list" where
  "MarshalValue (Bytes b) =
     (if length b = 1 \<and> unat (hd b) \<le> 0x7F then b else marshalSize 0x80 (length b) @ b)"
| "MarshalValue (Array a) =
     (let body = concat (map MarshalValue a) in marshalSize 0xC0 (length body) @ body)"
| "MarshalValue Null = [0x80]"
| "MarshalValue ArrayNull = [0xC0]"

definition MarshalTo :: "rlp_value \<Rightarrow> byte list \<Rightarrow> byte list" where
  "MarshalTo v dst = dst @ MarshalValue v"

subsubsection \<open>Parsing\<close>

definition readUint :: "byte list \<Rightarrow> nat" where
  "readUint bs = foldl (\<lambda>acc b. acc * 256 + unat b) 0 bs"

text \<open>
  \<open>cut lst sz b\<close> takes a payload of \<open>sz\<close> bytes off the front of \<open>b\<close>; \<open>cutLong\<close>
  first reads the size from \<open>n\<close> length bytes.
\<close>

definition cut :: "bool \<Rightarrow> nat \<Rightarrow> byte list \<Rightarrow> rlp_error + (bool \<times> byte list \<times> byte list)" where
  "cut lst sz b =
     (if length b < sz then Inl ErrShortInput else Inr (lst, take sz b, drop sz b))"

definition cutLong :: "bool \<Rightarrow> nat \<Rightarrow> byte list \<Rightarrow> rlp_error + (bool \<times> byte list \<times> byte list)" where
  "cutLong lst n b =
     (if length b < n then Inl ErrShortInput else cut lst (readUint (take n b)) (drop n b))"

text \<open>
  The first item of the input \<open>cur # rest\<close>: whether it is a list, its payload, and the
  bytes after it.
\<close>

definition splitItem :: "byte \<Rightarrow> byte list \<Rightarrow> rlp_error + (bool \<times> byte list \<times> byte list)" where
  "splitItem cur rest =
     (let c = unat cur in
      if c < 0x80 then Inr (False, [cur], rest)
      else if c < 0xB8 then cut False (c - 0x80) rest
      else if c < 0xC0 then cutLong False (c - 0xB7) rest
      else if c < 0xF8 then cut True (c - 0xC0) rest
      else cutLong True (c - 0xF7) rest)"

lemma cut_length:
  "cut lst sz b = Inr (lst', body, tail) \<Longrightarrow> length body + length tail = length b"
  by (auto simp: cut_def split: if_splits)

lemma cutLong_length:
  "cutLong lst n b = Inr (lst', body, tail) \<Longrightarrow> length body + length tail \<le> length b"
  by (auto simp: cutLong_def split: if_splits dest!: cut_length)

lemma splitItem_tail:
  "splitItem cur rest = Inr (lst, body, tail) \<Longrightarrow> length tail \<le> length rest"
  by (auto simp: splitItem_def Let_def split: if_splits dest!: cut_length cutLong_length)

lemma splitItem_body:
  "splitItem cur rest = Inr (True, body, tail) \<Longrightarrow> length body \<le> length rest"
  by (auto simp: splitItem_def Let_def split: if_splits dest!: cut_length cutLong_length)

text \<open>
  The items of a list payload, parsed one after the other until the payload is used up.
  A list item's own payload is parsed the same way.
\<close>

function parseElems :: "byte list \<Rightarrow> rlp_error + rlp_value list" where
  "parseElems [] = Inr []"
| "parseElems (cur # rest) =
     (case splitItem cur rest of
        Inl e \<Rightarrow> Inl e
      | Inr (lst, body, tail) \<Rightarrow>
          (case (if lst then (case parseElems body of Inl e \<Rightarrow> Inl e | Inr a \<Rightarrow> Inr (Array a))
                 else Inr (Bytes body)) of
             Inl e \<Rightarrow> Inl e
           | Inr v \<Rightarrow> (case parseElems tail of Inl e \<Rightarrow> Inl e | Inr vs \<Rightarrow> Inr (v # vs))))"
  by pat_completeness auto
termination
  by (relation "measure length")
     (auto dest: splitItem_body splitItem_tail simp: le_imp_less_Suc)

text \<open>Modelled from the spec: the parser's value at the front of the input, and the rest.\<close>

definition parseValue :: "byte list \<Rightarrow> rlp_error + (rlp_value \<times> byte list)" where
  "parseValue b =
     (case b of
        [] \<Rightarrow> Inl ErrEmptyInput
      | cur # rest \<Rightarrow>
          (case splitItem cur rest of
             Inl e \<Rightarrow> Inl e
           | Inr (lst, body, tail) \<Rightarrow>
               if lst then (case parseElems body of Inl e \<Rightarrow> Inl e | Inr a \<Rightarrow> Inr (Array a, tail))
               else Inr (Bytes body, tail)))"

text \<open>Modelled from the spec: \<^verbatim>\<open>Parser.Parse\<close> returns the first value of the input.\<close>

definition Parse :: "byte list \<Rightarrow> rlp_error + rlp_value" where
  "Parse b = (case parseValue b of Inl e \<Rightarrow> Inl e | Inr (v, tail) \<Rightarrow> Inr v)"

text \<open>
  What the parser gives back for the bytes of a value: on the wire a null is the empty byte
  string and the null-array marker is the empty list.
\<close>

fun parsed :: "rlp_value \<Rightarrow> rlp_value" where
  "parsed (Bytes b) = Bytes b"
| "parsed (Array a) = Array (map parsed a)"
| "parsed Null = Bytes []"
| "parsed ArrayNull = Array []"

text \<open>Modelled from the spec: \<^verbatim>\<open>Value.Type\<close>, the kind of a value as error messages print it.\<close>

datatype rlp_type = TypeArray | TypeBytes | TypeNull | TypeArrayNull

fun Type_of :: "rlp_value \<Rightarrow> rlp_type" where
  "Type_of (Array a) = TypeArray"
| "Type_of (Bytes b) = TypeBytes"
| "Type_of Null = TypeNull"
| "Type_of ArrayNull = TypeArrayNull"

subsection \<open>Errors of extra.go\<close>

text \<open>
  Go errors are values built where the failure is found. Each constructor is one of the
  errors the file can return:
  \<^item> \<open>WrongExtraSize expected actual\<close>: extra.go:51, \<^verbatim>\<open>"wrong extra size, expected greater
    than or equal to %d but actual %d"\<close> (the spec's \<open>ExtensionTooShort\<close>);
  \<^item> \<open>RlpError e\<close>: an error of the wire codec returned as it is, by
    \<^verbatim>\<open>types.UnmarshalRlp\<close> when parsing fails and at extra.go:191, 207 and 228;
  \<^item> \<open>NotEnoughElements num\<close>: extra.go:195, \<^verbatim>\<open>"not enough elements to decode istambul
    extra, expected 3 but found %d"\<close> (the spec's \<open>MalformedRecord\<close>);
  \<^item> \<open>ValidatorsTypeMismatch t\<close>: extra.go:202, \<^verbatim>\<open>"mismatch of RLP type for Validators,
    expected list but found %s"\<close>;
  \<^item> \<open>SealDecodeFailed e\<close>: extra.go:215, \<^verbatim>\<open>"failed to decode Seal: %w"\<close>;
  \<^item> \<open>CommittedSealTypeMismatch t\<close>: extra.go:223, \<^verbatim>\<open>"mismatch of RLP type for
    CommittedSeal, expected list but found %s"\<close>.
\<close>

datatype error =
    WrongExtraSize nat nat
  | RlpError rlp_error
  | NotEnoughElements nat
  | ValidatorsTypeMismatch rlp_type
  | SealDecodeFailed rlp_error
  | CommittedSealTypeMismatch rlp_type

subsection \<open>Encoding: MarshalRLPWith, MarshalRLPTo\<close>

text \<open>
  One round of the loop over \<open>CommittedSeal\<close> (extra.go:169-175). The loop works on two
  values, the top-level record \<open>vv\<close> and the list \<open>committed\<close>: an empty entry is set on
  \<open>vv\<close>, any other entry on \<open>committed\<close>.
\<close>

fun committedStep :: "rlp_value \<times> rlp_value \<Rightarrow> byte list \<Rightarrow> rlp_value \<times> rlp_value" where
  "committedStep (vv, committed) a =
     (if length a = 0 then (Set_value vv NewNull, committed)
      else (vv, Set_value committed (NewBytes a)))"

text \<open>\<^verbatim>\<open>IstanbulExtra.MarshalRLPWith\<close> (extra.go:146).\<close>

definition MarshalRLPWith :: "IstanbulExtra \<Rightarrow> rlp_value" where
  "MarshalRLPWith i =
     (let vv = NewArray;
          vals = foldl (\<lambda>vals a. Set_value vals (NewBytes a)) NewArray (Validators i);
          vv = Set_value vv vals;
          vv = (if length (Seal i) = 0 then Set_value vv NewNull
                else Set_value vv (NewBytes (Seal i)))
      in if length (CommittedSeal i) = 0 then Set_value vv NewNullArray
         else (case foldl committedStep (vv, NewArray) (CommittedSeal i) of
                 (vv, committed) \<Rightarrow> Set_value vv committed))"

text \<open>
  \<^verbatim>\<open>IstanbulExtra.MarshalRLPTo\<close> (extra.go:141).
  Modelled from the spec: \<^verbatim>\<open>types.MarshalRLPTo\<close> (package \<^verbatim>\<open>types\<close> of this repository,
  not under src/) builds the value with the given function and appends its bytes to \<open>dst\<close>.
\<close>

definition MarshalRLPTo :: "IstanbulExtra \<Rightarrow> byte list \<Rightarrow> byte list" where
  "MarshalRLPTo i dst = MarshalTo (MarshalRLPWith i) dst"

subsection \<open>Decoding: UnmarshalRLPFrom, UnmarshalRLP\<close>

text \<open>The loop over the validators (extra.go:205-209): the first failing entry ends it.\<close>

fun decodeValidators :: "rlp_value list \<Rightarrow> rlp_error + address list" where
  "decodeValidators [] = Inr []"
| "decodeValidators (val # vals) =
     (case GetAddr val of
        Inl err \<Rightarrow> Inl err
      | Inr a \<Rightarrow> (case decodeValidators vals of Inl err \<Rightarrow> Inl err | Inr as \<Rightarrow> Inr (a # as)))"

text \<open>The loop over the committed seals (extra.go:226-230).\<close>

fun decodeCommitted :: "rlp_value list \<Rightarrow> rlp_error + byte list list" where
  "decodeCommitted [] = Inr []"
| "decodeCommitted (val # vals) =
     (case GetBytes val of
        Inl err \<Rightarrow> Inl err
      | Inr b \<Rightarrow> (case decodeCommitted vals of Inl err \<Rightarrow> Inl err | Inr bs \<Rightarrow> Inr (b # bs)))"

text \<open>
  \<^verbatim>\<open>IstanbulExtra.UnmarshalRLPFrom\<close> (extra.go:188). On success every field of the receiver
  has been overwritten, so the model returns the decoded record; on failure the caller
  (\<open>getIbftExtra\<close>) drops the receiver.
\<close>

definition UnmarshalRLPFrom :: "rlp_value \<Rightarrow> error + IstanbulExtra" where
  "UnmarshalRLPFrom v =
     (case GetElems v of
        Inl err \<Rightarrow> Inl (RlpError err)
      | Inr elems \<Rightarrow>
          if length elems \<noteq> 3 then Inl (NotEnoughElements (length elems))
          else
            (case GetElems (elems ! 0) of
               Inl err \<Rightarrow> Inl (ValidatorsTypeMismatch (Type_of (elems ! 0)))
             | Inr vals \<Rightarrow>
                 (case decodeValidators vals of
                    Inl err \<Rightarrow> Inl (RlpError err)
                  | Inr validators \<Rightarrow>
                      (case GetBytes (elems ! 1) of
                         Inl err \<Rightarrow> Inl (SealDecodeFailed err)
                       | Inr seal \<Rightarrow>
                           (case GetElems (elems ! 2) of
                              Inl err \<Rightarrow> Inl (CommittedSealTypeMismatch (Type_of (elems ! 0)))
                            | Inr cvals \<Rightarrow>
                                (case decodeCommitted cvals of
                                   Inl err \<Rightarrow> Inl (RlpError err)
                                 | Inr committed \<Rightarrow>
                                     Inr \<lparr>Validators = validators, Seal = seal,
                                          CommittedSeal = committed\<rparr>))))))"

text \<open>
  \<^verbatim>\<open>IstanbulExtra.UnmarshalRLP\<close> (extra.go:183).
  Modelled from the spec: \<^verbatim>\<open>types.UnmarshalRlp\<close> (package \<^verbatim>\<open>types\<close> of this repository,
  not under src/) parses the input and hands the value to the given function; a parse
  error is returned as it is.
\<close>

definition UnmarshalRLP :: "byte list \<Rightarrow> error + IstanbulExtra" where
  "UnmarshalRLP input =
     (case Parse input of Inl err \<Rightarrow> Inl (RlpError err) | Inr v \<Rightarrow> UnmarshalRLPFrom v)"

subsection \<open>The header operations\<close>

text \<open>
  The Go functions take a pointer to the header and return an error. The model returns
  the header after the call together with the error (\<open>None\<close> for \<^verbatim>\<open>nil\<close>).
\<close>

text \<open>\<^verbatim>\<open>putIbftExtra\<close> (extra.go:34).\<close>

definition putIbftExtra :: "'a Header_scheme \<Rightarrow> IstanbulExtra \<Rightarrow> 'a Header_scheme \<times> error option" where
  "putIbftExtra h istanbulExtra =
     (let extra = ExtraData h;
          extra = (if length extra < IstanbulExtraVanity
                   then extra @ take (IstanbulExtraVanity - length extra) zeroBytes
                   else take IstanbulExtraVanity extra)
      in (h\<lparr>ExtraData := MarshalRLPTo istanbulExtra extra\<rparr>, None))"

text \<open>\<^verbatim>\<open>initIbftExtra\<close> (extra.go:25).\<close>

definition initIbftExtra :: "'a Header_scheme \<Rightarrow> address list \<Rightarrow> 'a Header_scheme \<times> error option" where
  "initIbftExtra h validators =
     putIbftExtra h \<lparr>Validators = validators, Seal = [], CommittedSeal = []\<rparr>"

text \<open>\<^verbatim>\<open>getIbftExtra\<close> (extra.go:49).\<close>

definition getIbftExtra :: "'a Header_scheme \<Rightarrow> error + IstanbulExtra" where
  "getIbftExtra h =
     (if length (ExtraData h) < IstanbulExtraVanity
      then Inl (WrongExtraSize IstanbulExtraVanity (length (ExtraData h)))
      else
        (let data = drop IstanbulExtraVanity (ExtraData h) in
         case UnmarshalRLP data of Inl err \<Rightarrow> Inl err | Inr extra \<Rightarrow> Inr extra))"

text \<open>The three projections (extra.go:65, 75, 85).\<close>

definition unpackValidatorsFromIbftExtra :: "'a Header_scheme \<Rightarrow> error + address list" where
  "unpackValidatorsFromIbftExtra h =
     (case getIbftExtra h of Inl err \<Rightarrow> Inl err | Inr extra \<Rightarrow> Inr (Validators extra))"

definition unpackSealFromIbftExtra :: "'a Header_scheme \<Rightarrow> error + byte list" where
  "unpackSealFromIbftExtra h =
     (case getIbftExtra h of Inl err \<Rightarrow> Inl err | Inr extra \<Rightarrow> Inr (Seal extra))"

definition unpackCommittedSealFromIbftExtra :: "'a Header_scheme \<Rightarrow> error + byte list list" where
  "unpackCommittedSealFromIbftExtra h =
     (case getIbftExtra h of Inl err \<Rightarrow> Inl err | Inr extra \<Rightarrow> Inr (CommittedSeal extra))"

text \<open>\<^verbatim>\<open>packFieldIntoIbftExtra\<close> (extra.go:95).\<close>

definition packFieldIntoIbftExtra ::
  "'a Header_scheme \<Rightarrow> (IstanbulExtra \<Rightarrow> IstanbulExtra) \<Rightarrow> 'a Header_scheme \<times> error option" where
  "packFieldIntoIbftExtra h updateFn =
     (case getIbftExtra h of
        Inl err \<Rightarrow> (h, Some err)
      | Inr extra \<Rightarrow> putIbftExtra h (updateFn extra))"

text \<open>\<^verbatim>\<open>packSealIntoIbftExtra\<close> (extra.go:107).\<close>

definition packSealIntoIbftExtra :: "'a Header_scheme \<Rightarrow> byte list \<Rightarrow> 'a Header_scheme \<times> error option" where
  "packSealIntoIbftExtra h seal = packFieldIntoIbftExtra h (\<lambda>extra. extra\<lparr>Seal := seal\<rparr>)"

text \<open>\<^verbatim>\<open>packCommittedSealIntoIbftExtra\<close> (extra.go:114).\<close>

definition packCommittedSealIntoIbftExtra ::
  "'a Header_scheme \<Rightarrow> byte list list \<Rightarrow> 'a Header_scheme \<times> error option" where
  "packCommittedSealIntoIbftExtra h seals =
     packFieldIntoIbftExtra h (\<lambda>extra. extra\<lparr>CommittedSeal := seals\<rparr>)"

text \<open>\<^verbatim>\<open>filterIbftExtraForHash\<close> (extra.go:121).\<close>

definition filterIbftExtraForHash :: "'a Header_scheme \<Rightarrow> 'a Header_scheme \<times> error option" where
  "filterIbftExtraForHash h =
     (case getIbftExtra h of
        Inl err \<Rightarrow> (h, Some err)
      | Inr extra \<Rightarrow> initIbftExtra h (Validators extra))"

subsection \<open>A sequence of seal mutations\<close>

text \<open>
  The two mutators a caller can apply to a header, and the run of a list of them: the
  header and the error after each call, every call working on the header the previous
  one left.
\<close>

datatype mutation = SetSeal "byte list" | SetCommittedSeals "byte list list"

fun mutate :: "'a Header_scheme \<Rightarrow> mutation \<Rightarrow> 'a Header_scheme \<times> error option" where
  "mutate h (SetSeal seal) = packSealIntoIbftExtra h seal"
| "mutate h (SetCommittedSeals seals) = packCommittedSealIntoIbftExtra h seals"

fun mutate_all :: "'a Header_scheme \<Rightarrow> mutation list \<Rightarrow> ('a Header_scheme \<times> error option) list" where
  "mutate_all h [] = []"
| "mutate_all h (m # ms) = mutate h m # mutate_all (fst (mutate h m)) ms"

subsection \<open>Example data\<close>

text \<open>Three validator addresses, a proposer seal, two committed seals, and headers.\<close>

definition addrA :: address where "addrA = replicate 20 0xA1"
definition addrB :: address where "addrB = replicate 20 0xB2"
definition addrC :: address where "addrC = replicate 20 0xC3"

definition sigP :: "byte list" where "sigP = replicate 65 0x50"
definition sig1 :: "byte list" where "sig1 = replicate 65 0x11"
definition sig2 :: "byte list" where "sig2 = replicate 65 0x22"

definition shortHeader :: Header where
  "shortHeader = \<lparr>ExtraData = replicate 31 0\<rparr>"

definition vanityHeader :: Header where
  "vanityHeader = \<lparr>ExtraData = [0x70, 0x6F, 0x6C, 0x79]\<rparr>"

definition sealedHeader :: Header where
  "sealedHeader = fst (initIbftExtra \<lparr>ExtraData = replicate 32 7\<rparr> [addrA])"

section \<open>Properties\<close>

subsection \<open>Writing into a header\<close>

lemma take_zeroBytes: "n \<le> 32 \<Longrightarrow> take n zeroBytes = replicate n 0"
  by (simp add: zeroBytes_def min_def)

lemma putIbftExtra_ExtraData:
  "ExtraData (fst (putIbftExtra h i)) =
     (if length (ExtraData h) < 32
      then ExtraData h @ replicate (32 - length (ExtraData h)) 0
      else take 32 (ExtraData h)) @ MarshalValue (MarshalRLPWith i)"
  by (simp add: putIbftExtra_def MarshalRLPTo_def MarshalTo_def IstanbulExtraVanity_def
      take_zeroBytes Let_def)

lemma putIbftExtra_more: "Header.more (fst (putIbftExtra h i)) = Header.more h"
  by (simp add: putIbftExtra_def Let_def)

lemma putIbftExtra_snd: "snd (putIbftExtra h i) = None"
  by (simp add: putIbftExtra_def Let_def)

lemma putIbftExtra_take:
  "32 \<le> length (ExtraData h) \<Longrightarrow>
   take 32 (ExtraData (fst (putIbftExtra h i))) = take 32 (ExtraData h)"
  by (simp add: putIbftExtra_ExtraData)

lemma getIbftExtra_Inr_length: "getIbftExtra h = Inr extra \<Longrightarrow> 32 \<le> length (ExtraData h)"
  by (auto simp: getIbftExtra_def IstanbulExtraVanity_def split: if_splits)

lemma packFieldIntoIbftExtra_take:
  "take 32 (ExtraData (fst (packFieldIntoIbftExtra h updateFn))) = take 32 (ExtraData h)"
  by (auto simp: packFieldIntoIbftExtra_def putIbftExtra_take
      dest: getIbftExtra_Inr_length split: sum.splits)

lemma mutate_take: "take 32 (ExtraData (fst (mutate h m))) = take 32 (ExtraData h)"
  by (cases m)
    (simp_all add: packSealIntoIbftExtra_def packCommittedSealIntoIbftExtra_def
      packFieldIntoIbftExtra_take)

text \<open>
  C4. Whatever sequence of \<open>packSealIntoIbftExtra\<close> and \<open>packCommittedSealIntoIbftExtra\<close>
  calls is run on a header whose extension field starts with the 32 bytes \<open>p\<close>, the field
  of the header after each call starts with the same 32 bytes \<open>p\<close> (a call that succeeds
  rewrites the field behind them, a call that fails leaves the header as it was).
\<close>

theorem mutate_all_preserves_vanity:
  assumes "32 \<le> length (ExtraData h)" and "take 32 (ExtraData h) = p"
  shows "\<forall>r \<in> set (mutate_all h ms). take 32 (ExtraData (fst r)) = p"
  using assms
proof (induction ms arbitrary: h)
  case Nil
  then show ?case by simp
next
  case (Cons m ms)
  have eq: "take 32 (ExtraData (fst (mutate h m))) = p"
    using Cons.prems(2) by (simp add: mutate_take)
  have "length (take 32 (ExtraData (fst (mutate h m)))) = length (take 32 (ExtraData h))"
    by (simp only: mutate_take)
  then have len: "32 \<le> length (ExtraData (fst (mutate h m)))"
    using Cons.prems(1) by simp
  show ?case
    using Cons.IH [OF len eq] eq by simp
qed

theorem mutate_all_preserves_vanity_witness:
  "32 \<le> length (ExtraData sealedHeader)
   \<and> take 32 (ExtraData sealedHeader) = replicate 32 7
   \<and> map snd (mutate_all sealedHeader [SetSeal sigP, SetCommittedSeals [sig1, sig2]])
       = [None, None]
   \<and> map (\<lambda>r. take 32 (ExtraData (fst r)))
        (mutate_all sealedHeader [SetSeal sigP, SetCommittedSeals [sig1, sig2]])
       = [replicate 32 7, replicate 32 7]"
proof -
  have len: "32 \<le> length (ExtraData sealedHeader)"
    by code_simp
  have p: "take 32 (ExtraData sealedHeader) = replicate 32 7"
    by code_simp
  have ok: "map snd (mutate_all sealedHeader [SetSeal sigP, SetCommittedSeals [sig1, sig2]])
              = [None, None]"
    by code_simp
  have "map (\<lambda>r. take 32 (ExtraData (fst r)))
          (mutate_all sealedHeader [SetSeal sigP, SetCommittedSeals [sig1, sig2]])
        = [replicate 32 7, replicate 32 7]"
    using mutate_all_preserves_vanity
      [OF len p, of "[SetSeal sigP, SetCommittedSeals [sig1, sig2]]"]
    by simp
  with len p ok show ?thesis
    by blast
qed

text \<open>
  C5. The first 32 bytes of the field written by \<open>putIbftExtra\<close> are the prior field
  right-padded with zero bytes to length 32 when the prior field was shorter than 32
  bytes, and exactly the first 32 bytes of the prior field otherwise; two prior fields of
  32 bytes or more that agree on their first 32 bytes give the same new field, so the
  bytes beyond position 32 have no effect.
\<close>

theorem putIbftExtra_vanity:
  "(length (ExtraData h) < 32 \<longrightarrow>
      take 32 (ExtraData (fst (putIbftExtra h i)))
        = ExtraData h @ replicate (32 - length (ExtraData h)) 0)
   \<and> (32 \<le> length (ExtraData h) \<longrightarrow>
      take 32 (ExtraData (fst (putIbftExtra h i))) = take 32 (ExtraData h))
   \<and> (32 \<le> length (ExtraData h) \<and> 32 \<le> length (ExtraData h')
        \<and> take 32 (ExtraData h) = take 32 (ExtraData h') \<longrightarrow>
      ExtraData (fst (putIbftExtra h i)) = ExtraData (fst (putIbftExtra h' i)))"
  by (simp add: putIbftExtra_ExtraData)

theorem putIbftExtra_vanity_witness:
  "take 32 (ExtraData (fst (putIbftExtra vanityHeader
       \<lparr>Validators = [addrA], Seal = sigP, CommittedSeal = [sig1]\<rparr>)))
     = [0x70, 0x6F, 0x6C, 0x79] @ replicate 28 0
   \<and> take 32 (ExtraData (fst (putIbftExtra \<lparr>ExtraData = replicate 32 7 @ [1, 2, 3]\<rparr>
       \<lparr>Validators = [addrA], Seal = sigP, CommittedSeal = [sig1]\<rparr>)))
     = replicate 32 7
   \<and> ExtraData (fst (putIbftExtra \<lparr>ExtraData = replicate 32 7 @ [1, 2, 3]\<rparr>
       \<lparr>Validators = [addrA], Seal = sigP, CommittedSeal = [sig1]\<rparr>))
     = ExtraData (fst (putIbftExtra \<lparr>ExtraData = replicate 32 7 @ [9]\<rparr>
       \<lparr>Validators = [addrA], Seal = sigP, CommittedSeal = [sig1]\<rparr>))"
proof -
  let ?i = "\<lparr>Validators = [addrA], Seal = sigP, CommittedSeal = [sig1]\<rparr>"
  let ?l = "\<lparr>ExtraData = replicate 32 7 @ [1, 2, 3]\<rparr> :: Header"
  let ?m = "\<lparr>ExtraData = replicate 32 7 @ [9]\<rparr> :: Header"
  have short: "take 32 (ExtraData (fst (putIbftExtra vanityHeader ?i)))
      = [0x70, 0x6F, 0x6C, 0x79] @ replicate 28 0"
    using putIbftExtra_vanity [of vanityHeader ?i] by (simp add: vanityHeader_def)
  have long: "take 32 (ExtraData (fst (putIbftExtra ?l ?i))) = replicate 32 7"
    using putIbftExtra_vanity [of ?l ?i ?l] by simp
  have same: "ExtraData (fst (putIbftExtra ?l ?i)) = ExtraData (fst (putIbftExtra ?m ?i))"
    using putIbftExtra_vanity [of ?l ?i ?m] by simp
  show ?thesis
    using short long same by blast
qed

text \<open>
  C6. When reading the header fails, \<open>packFieldIntoIbftExtra\<close> returns that very error
  and the header it leaves is the header it was given.
\<close>

theorem packFieldIntoIbftExtra_read_failure:
  "getIbftExtra h = Inl err \<Longrightarrow> packFieldIntoIbftExtra h updateFn = (h, Some err)"
  by (simp add: packFieldIntoIbftExtra_def)

theorem packFieldIntoIbftExtra_read_failure_witness:
  "getIbftExtra shortHeader = Inl (WrongExtraSize 32 31)
   \<and> packFieldIntoIbftExtra shortHeader (\<lambda>extra. extra\<lparr>Seal := sigP\<rparr>)
       = (shortHeader, Some (WrongExtraSize 32 31))"
proof -
  have r: "getIbftExtra shortHeader = Inl (WrongExtraSize 32 31)"
    by code_simp
  show ?thesis
    using r packFieldIntoIbftExtra_read_failure [OF r] by simp
qed

lemma UnmarshalRLPFrom_not_WrongExtraSize: "UnmarshalRLPFrom v \<noteq> Inl (WrongExtraSize a b)"
  by (simp add: UnmarshalRLPFrom_def split: sum.splits)

lemma UnmarshalRLP_not_WrongExtraSize: "UnmarshalRLP input \<noteq> Inl (WrongExtraSize a b)"
  by (simp add: UnmarshalRLP_def UnmarshalRLPFrom_not_WrongExtraSize split: sum.splits)

text \<open>
  C7. \<open>getIbftExtra\<close> returns the wrong-extra-size error (the spec's \<open>ExtensionTooShort\<close>)
  exactly when the extension field is shorter than 32 bytes; the error then reports the
  expected 32 and the actual length.
\<close>

theorem getIbftExtra_too_short_iff:
  "getIbftExtra h = Inl (WrongExtraSize a b)
     \<longleftrightarrow> length (ExtraData h) < 32 \<and> a = 32 \<and> b = length (ExtraData h)"
proof (cases "length (ExtraData h) < 32")
  case True
  then show ?thesis
    by (auto simp: getIbftExtra_def IstanbulExtraVanity_def)
next
  case False
  then have "getIbftExtra h = UnmarshalRLP (drop 32 (ExtraData h))"
    by (simp add: getIbftExtra_def IstanbulExtraVanity_def split: sum.splits)
  then show ?thesis
    using False by (simp add: UnmarshalRLP_not_WrongExtraSize)
qed

theorem getIbftExtra_too_short_iff_witness:
  "getIbftExtra shortHeader = Inl (WrongExtraSize 32 31)
   \<and> getIbftExtra \<lparr>ExtraData = replicate 32 0\<rparr> \<noteq> Inl (WrongExtraSize 32 32)"
  using getIbftExtra_too_short_iff [of shortHeader 32 31]
    getIbftExtra_too_short_iff [of "\<lparr>ExtraData = replicate 32 0\<rparr>" 32 32]
  by (simp add: shortHeader_def)

text \<open>
  C8. A value whose top-level list has a number of elements other than 3 is rejected
  with the not-enough-elements error (the spec's \<open>MalformedRecord\<close>) reporting that number,
  whatever the elements are; so is every payload that parses to such a list.
\<close>

theorem UnmarshalRLP_element_count:
  assumes "length elems \<noteq> 3"
  shows "UnmarshalRLPFrom (Array elems) = Inl (NotEnoughElements (length elems))
         \<and> (Parse input = Inr (Array elems) \<longrightarrow>
              UnmarshalRLP input = Inl (NotEnoughElements (length elems)))"
  using assms by (simp add: UnmarshalRLPFrom_def UnmarshalRLP_def)

theorem UnmarshalRLP_element_count_witness:
  "UnmarshalRLPFrom (Array [Array [], Bytes []]) = Inl (NotEnoughElements 2)
   \<and> UnmarshalRLP [0xC2, 0xC0, 0x80] = Inl (NotEnoughElements 2)
   \<and> UnmarshalRLPFrom (Array [Array [], Bytes [], Array [], Bytes [1]]) = Inl (NotEnoughElements 4)
   \<and> UnmarshalRLP [0xC4, 0xC0, 0x80, 0xC0, 0x01] = Inl (NotEnoughElements 4)"
proof -
  have p2: "Parse [0xC2, 0xC0, 0x80] = Inr (Array [Array [], Bytes []])"
    by code_simp
  have p4: "Parse [0xC4, 0xC0, 0x80, 0xC0, 0x01] = Inr (Array [Array [], Bytes [], Array [], Bytes [1]])"
    by code_simp
  show ?thesis
    using p2 p4
      UnmarshalRLP_element_count [of "[Array [], Bytes []]" "[0xC2, 0xC0, 0x80]"]
      UnmarshalRLP_element_count [of "[Array [], Bytes [], Array [], Bytes [1]]"
        "[0xC4, 0xC0, 0x80, 0xC0, 0x01]"]
    by simp
qed

subsection \<open>The validators of a record\<close>

lemma decodeValidators_Inr:
  "decodeValidators vals = Inr as \<Longrightarrow> vals = map Bytes as \<and> (\<forall>a \<in> set as. length a = 20)"
proof (induction vals arbitrary: as)
  case Nil
  then show ?case by simp
next
  case (Cons val vals)
  then show ?case
    by (cases val) (auto simp: AddressLength_def split: sum.splits if_splits)
qed

lemma decodeValidators_map_Bytes:
  "\<forall>a \<in> set as. length a = 20 \<Longrightarrow> decodeValidators (map Bytes as) = Inr as"
  by (induction as) (simp_all add: AddressLength_def)

lemma decodeValidators_Inl:
  "decodeValidators vals = Inl err \<Longrightarrow> \<exists>val \<in> set vals. GetAddr val = Inl err"
  by (induction vals) (auto split: sum.splits)

lemma decodeValidators_bad_entry:
  "val \<in> set vals \<Longrightarrow> GetAddr val = Inl e \<Longrightarrow> \<exists>err. decodeValidators vals = Inl err"
  by (induction vals) (auto split: sum.splits)

lemma UnmarshalRLPFrom_Inr_validators:
  assumes "UnmarshalRLPFrom v = Inr x"
  shows "\<forall>a \<in> set (Validators x). length a = 20"
  using assms
  by (auto simp: UnmarshalRLPFrom_def split: sum.splits if_splits dest!: decodeValidators_Inr)

text \<open>
  C9. Decoding a record of three elements \<open>e0\<close>, \<open>e1\<close>, \<open>e2\<close>:
  \<^item> if \<open>e0\<close> is not a list, decoding fails with the validators type-mismatch error;
  \<^item> if \<open>e0\<close> is a list with an entry that is not a byte string of exactly 20 bytes,
    decoding fails with the address error of such an entry (a bad-length error
    reporting the expected 20 and the entry's length, or a not-bytes error);
  \<^item> if decoding succeeds, \<open>e0\<close> is the list of the decoded validators as byte strings, in
    the same order, each of 20 bytes: nothing is truncated or padded.
  These two failures are what the spec calls \<open>InvalidValidatorEncoding\<close>.
\<close>

theorem UnmarshalRLPFrom_validators:
  "(GetElems e0 = Inl err \<longrightarrow>
      UnmarshalRLPFrom (Array [e0, e1, e2]) = Inl (ValidatorsTypeMismatch (Type_of e0)))
   \<and> (e0 = Array vals \<and> val \<in> set vals \<and> (\<forall>b. val = Bytes b \<longrightarrow> length b \<noteq> 20) \<longrightarrow>
        (\<exists>bad \<in> set vals. \<exists>e. GetAddr bad = Inl e
            \<and> (e = ErrNoBytes \<or> (\<exists>n. n \<noteq> 20 \<and> e = ErrBadLength 20 n))
            \<and> UnmarshalRLPFrom (Array [e0, e1, e2]) = Inl (RlpError e)))
   \<and> (UnmarshalRLPFrom (Array [e0, e1, e2]) = Inr x \<longrightarrow>
        e0 = Array (map Bytes (Validators x)) \<and> (\<forall>a \<in> set (Validators x). length a = 20))"
proof (intro conjI impI)
  assume "GetElems e0 = Inl err"
  then show "UnmarshalRLPFrom (Array [e0, e1, e2]) = Inl (ValidatorsTypeMismatch (Type_of e0))"
    by (simp add: UnmarshalRLPFrom_def)
next
  assume a: "e0 = Array vals \<and> val \<in> set vals \<and> (\<forall>b. val = Bytes b \<longrightarrow> length b \<noteq> 20)"
  then have "\<exists>e. GetAddr val = Inl e"
    by (cases val) (simp_all add: AddressLength_def)
  with a obtain e where e: "decodeValidators vals = Inl e"
    using decodeValidators_bad_entry by blast
  then obtain bad where bad: "bad \<in> set vals" "GetAddr bad = Inl e"
    using decodeValidators_Inl by blast
  have kind: "e = ErrNoBytes \<or> (\<exists>n. n \<noteq> 20 \<and> e = ErrBadLength 20 n)"
    using bad(2) by (cases bad) (auto simp: AddressLength_def split: if_splits)
  have "UnmarshalRLPFrom (Array [e0, e1, e2]) = Inl (RlpError e)"
    using a e by (simp add: UnmarshalRLPFrom_def)
  with bad kind
  show "\<exists>bad \<in> set vals. \<exists>e. GetAddr bad = Inl e
          \<and> (e = ErrNoBytes \<or> (\<exists>n. n \<noteq> 20 \<and> e = ErrBadLength 20 n))
          \<and> UnmarshalRLPFrom (Array [e0, e1, e2]) = Inl (RlpError e)"
    by blast
next
  assume r: "UnmarshalRLPFrom (Array [e0, e1, e2]) = Inr x"
  then show "e0 = Array (map Bytes (Validators x))"
    by (cases e0)
      (auto simp: UnmarshalRLPFrom_def split: sum.splits dest!: decodeValidators_Inr)
  show "\<forall>a \<in> set (Validators x). length a = 20"
    using r by (rule UnmarshalRLPFrom_Inr_validators)
qed

theorem UnmarshalRLPFrom_validators_witness:
  "UnmarshalRLPFrom (Array [Bytes [], Bytes [], Array []])
     = Inl (ValidatorsTypeMismatch TypeBytes)
   \<and> UnmarshalRLPFrom (Array [Array [Bytes (replicate 19 1)], Bytes [], Array []])
     = Inl (RlpError (ErrBadLength 20 19))
   \<and> UnmarshalRLPFrom (Array [Array [Bytes (replicate 21 1)], Bytes [], Array []])
     = Inl (RlpError (ErrBadLength 20 21))
   \<and> (UnmarshalRLPFrom (Array [Array [Bytes addrB, Bytes addrA], Bytes [], Array []])
        = Inr \<lparr>Validators = [addrB, addrA], Seal = [], CommittedSeal = []\<rparr>)
   \<and> Parse (0xD7 # 0xD4 # 0x93 # replicate 19 1 @ [0x80, 0xC0])
     = Inr (Array [Array [Bytes (replicate 19 1)], Bytes [], Array []])
   \<and> UnmarshalRLP (0xD7 # 0xD4 # 0x93 # replicate 19 1 @ [0x80, 0xC0])
     = Inl (RlpError (ErrBadLength 20 19))"
proof -
  have ok: "UnmarshalRLPFrom (Array [Array [Bytes addrB, Bytes addrA], Bytes [], Array []])
        = Inr \<lparr>Validators = [addrB, addrA], Seal = [], CommittedSeal = []\<rparr>"
    by code_simp
  have wire: "Parse (0xD7 # 0xD4 # 0x93 # replicate 19 1 @ [0x80, 0xC0])
        = Inr (Array [Array [Bytes (replicate 19 1)], Bytes [], Array []])"
    by code_simp
  show ?thesis
    using ok wire
      UnmarshalRLPFrom_validators [of "Bytes []" ErrNoArray "Bytes []" "Array []"]
      UnmarshalRLPFrom_validators [of "Array [Bytes (replicate 19 1)]" _ "Bytes []" "Array []"
        "[Bytes (replicate 19 1)]" "Bytes (replicate 19 1)"]
      UnmarshalRLPFrom_validators [of "Array [Bytes (replicate 21 1)]" _ "Bytes []" "Array []"
        "[Bytes (replicate 21 1)]" "Bytes (replicate 21 1)"]
      UnmarshalRLPFrom_validators [of "Array [Bytes addrB, Bytes addrA]" _ "Bytes []" "Array []"
        _ _ "\<lparr>Validators = [addrB, addrA], Seal = [], CommittedSeal = []\<rparr>"]
    by (auto simp: AddressLength_def UnmarshalRLP_def)
qed

subsection \<open>No failure on the write path\<close>

text \<open>
  C10. \<open>putIbftExtra\<close> and \<open>initIbftExtra\<close> return no error, whatever the header and the
  record; the mutators and \<open>filterIbftExtraForHash\<close> return an error exactly when
  reading the header (\<open>getIbftExtra\<close>) fails, and then that error.
\<close>

theorem write_path_never_fails:
  "snd (putIbftExtra h i) = None
   \<and> snd (initIbftExtra h validators) = None
   \<and> snd (packFieldIntoIbftExtra h updateFn)
       = (case getIbftExtra h of Inl err \<Rightarrow> Some err | Inr extra \<Rightarrow> None)
   \<and> snd (packSealIntoIbftExtra h seal)
       = (case getIbftExtra h of Inl err \<Rightarrow> Some err | Inr extra \<Rightarrow> None)
   \<and> snd (packCommittedSealIntoIbftExtra h seals)
       = (case getIbftExtra h of Inl err \<Rightarrow> Some err | Inr extra \<Rightarrow> None)
   \<and> snd (filterIbftExtraForHash h)
       = (case getIbftExtra h of Inl err \<Rightarrow> Some err | Inr extra \<Rightarrow> None)"
  by (simp add: initIbftExtra_def packFieldIntoIbftExtra_def packSealIntoIbftExtra_def
      packCommittedSealIntoIbftExtra_def filterIbftExtraForHash_def putIbftExtra_snd
      split: sum.splits)

subsection \<open>Empty entries in the committed seals\<close>

lemma foldl_Set_value_Bytes:
  "foldl (\<lambda>vals a. Set_value vals (Bytes a)) (Array acc) xs = Array (acc @ map Bytes xs)"
  by (induction xs arbitrary: acc) simp_all

lemma foldl_committedStep:
  "foldl committedStep (Array tp, Array acc) cs
     = (Array (tp @ map (\<lambda>a. Null) (filter (\<lambda>a. a = []) cs)),
        Array (acc @ map Bytes (filter (\<lambda>a. a \<noteq> []) cs)))"
  by (induction cs arbitrary: tp acc) (simp_all add: NewBytes_def NewNull_def)

text \<open>
  What \<open>MarshalRLPWith\<close> builds: the validators, the seal, then one null for each empty
  entry of a non-empty committed-seal list, then the list of the remaining entries.
\<close>

lemma MarshalRLPWith_eq:
  "MarshalRLPWith i =
     Array ([Array (map Bytes (Validators i)),
             (if Seal i = [] then Null else Bytes (Seal i))]
            @ (if CommittedSeal i = [] then [ArrayNull]
               else map (\<lambda>a. Null) (filter (\<lambda>a. a = []) (CommittedSeal i))
                    @ [Array (map Bytes (filter (\<lambda>a. a \<noteq> []) (CommittedSeal i)))]))"
  by (simp add: MarshalRLPWith_def NewArray_def NewNull_def NewNullArray_def NewBytes_def
      foldl_Set_value_Bytes foldl_committedStep)

text \<open>
  C2, at a record whose committed seals are an empty entry followed by a one-byte entry:
  the encoder builds four top-level elements, the null of the empty entry standing next
  to the seal instead of inside the committed-seal list.
\<close>

theorem MarshalRLPWith_empty_committed_entry:
  "MarshalRLPWith \<lparr>Validators = [addrA], Seal = sigP, CommittedSeal = [[], [1]]\<rparr>
     = Array [Array [Bytes addrA], Bytes sigP, Null, Array [Bytes [1]]]"
  by (simp add: MarshalRLPWith_eq sigP_def)

text \<open>
  C1, at the same record: the bytes the encoder produces do not decode back to the
  record; decoding them fails, four top-level elements being found.
\<close>

theorem roundtrip_empty_committed_entry:
  "UnmarshalRLP (MarshalRLPTo
      \<lparr>Validators = [addrA], Seal = sigP, CommittedSeal = [[], [1]]\<rparr> [])
     = Inl (NotEnoughElements 4)"
  by code_simp

subsection \<open>Parsing the bytes of a value\<close>

text \<open>
  The size prefix holds lengths below \<open>2 ^ 64\<close> (eight length bytes); a Go slice is shorter
  than that, so the bound excludes no input the program can be given.
\<close>


lemma readUint_snoc: "readUint (xs @ [b]) = readUint xs * 256 + unat b"
  by (simp add: readUint_def)

lemma readUint_putUint: "readUint (putUint n) = n"
proof (induction n rule: putUint.induct)
  case (1 n)
  show ?case
  proof (cases "n = 0")
    case True
    then show ?thesis by (simp add: putUint.simps readUint_def)
  next
    case False
    then have "putUint n = putUint (n div 256) @ [of_nat (n mod 256)]"
      by (subst putUint.simps) simp
    with False "1.IH" show ?thesis
      by (simp add: readUint_snoc unat_of_nat)
  qed
qed

lemma length_putUint: "n < 256 ^ k \<Longrightarrow> length (putUint n) \<le> k"
proof (induction k arbitrary: n)
  case 0
  then show ?case by (simp add: putUint.simps)
next
  case (Suc k)
  show ?case
  proof (cases "n = 0")
    case True
    then show ?thesis by (simp add: putUint.simps)
  next
    case False
    then have eq: "putUint n = putUint (n div 256) @ [of_nat (n mod 256)]"
      by (subst putUint.simps) simp
    have "n div 256 < 256 ^ k"
      using Suc.prems by (simp add: less_mult_imp_div_less mult.commute)
    then have "length (putUint (n div 256)) \<le> k"
      by (rule Suc.IH)
    with eq show ?thesis by simp
  qed
qed

lemma length_putUint_64: "n < 2 ^ 64 \<Longrightarrow> length (putUint n) \<le> 8"
  using length_putUint [of n 8] by simp

lemma putUint_nonempty: "0 < n \<Longrightarrow> 1 \<le> length (putUint n)"
  by (subst putUint.simps) simp

lemma unat_byte: "n < 256 \<Longrightarrow> unat (of_nat n :: byte) = n"
  by (simp add: unat_of_nat)

lemma splitItem_marshalSize_bytes:
  assumes "length p < 2 ^ 64"
  shows "\<exists>c ls. marshalSize 0x80 (length p) = c # ls
           \<and> splitItem c (ls @ p @ rest) = Inr (False, p, rest)"
proof (cases "length p < 56")
  case True
  then have "unat (of_nat (0x80 + length p) :: byte) = 0x80 + length p"
    using unat_byte [of "0x80 + length p"] by simp
  with True show ?thesis
    by (simp add: marshalSize_def splitItem_def cut_def)
next
  case False
  let ?k = "length (putUint (length p))"
  have k: "1 \<le> ?k" "?k \<le> 8"
    using False assms putUint_nonempty [of "length p"] length_putUint_64 [of "length p"]
    by (cases p; simp)+
  then have u: "unat (of_nat (0x80 + 55 + ?k) :: byte) = 0xB7 + ?k"
    using unat_byte [of "0x80 + 55 + ?k"] by simp
  have ne: "putUint (length p) \<noteq> []"
    using k by auto
  show ?thesis
    using False k u ne
    by (simp add: marshalSize_def splitItem_def cut_def cutLong_def readUint_putUint Let_def)
qed

lemma splitItem_marshalSize_list:
  assumes "length p < 2 ^ 64"
  shows "\<exists>c ls. marshalSize 0xC0 (length p) = c # ls
           \<and> splitItem c (ls @ p @ rest) = Inr (True, p, rest)"
proof (cases "length p < 56")
  case True
  then have "unat (of_nat (0xC0 + length p) :: byte) = 0xC0 + length p"
    using unat_byte [of "0xC0 + length p"] by simp
  with True show ?thesis
    by (simp add: marshalSize_def splitItem_def cut_def)
next
  case False
  let ?k = "length (putUint (length p))"
  have k: "1 \<le> ?k" "?k \<le> 8"
    using False assms putUint_nonempty [of "length p"] length_putUint_64 [of "length p"]
    by (cases p; simp)+
  then have u: "unat (of_nat (0xC0 + 55 + ?k) :: byte) = 0xF7 + ?k"
    using unat_byte [of "0xC0 + 55 + ?k"] by simp
  have ne: "putUint (length p) \<noteq> []"
    using k by auto
  show ?thesis
    using False k u ne
    by (simp add: marshalSize_def splitItem_def cut_def cutLong_def readUint_putUint Let_def)
qed


lemma length_MarshalValue_elem:
  "x \<in> set a \<Longrightarrow> length (MarshalValue x) \<le> length (concat (map MarshalValue a))"
  by (induction a) auto

lemma length_body_le:
  "length (concat (map MarshalValue a)) \<le> length (MarshalValue (Array a))"
  by (simp add: Let_def)

lemma parseElems_cons_item:
  assumes "b = c # ls" and "splitItem c (ls @ rest) = Inr (False, p, rest)"
  shows "parseElems (b @ rest)
    = (case parseElems rest of Inl e \<Rightarrow> Inl e | Inr vs \<Rightarrow> Inr (Bytes p # vs))"
  using assms by simp

lemma parseElems_cons_list:
  assumes "b = c # ls" and "splitItem c (ls @ rest) = Inr (True, p, rest)"
    and "parseElems p = Inr a"
  shows "parseElems (b @ rest)
    = (case parseElems rest of Inl e \<Rightarrow> Inl e | Inr vs \<Rightarrow> Inr (Array a # vs))"
  using assms by simp

lemma parseElems_concat:
  assumes "\<And>x rest. x \<in> set a \<Longrightarrow> parseElems (MarshalValue x @ rest)
      = (case parseElems rest of Inl e \<Rightarrow> Inl e | Inr vs \<Rightarrow> Inr (parsed x # vs))"
  shows "parseElems (concat (map MarshalValue a)) = Inr (map parsed a)"
  using assms by (induction a) simp_all

lemma parseElems_MarshalValue:
  "length (MarshalValue v) < 2 ^ 64 \<Longrightarrow>
   parseElems (MarshalValue v @ rest)
     = (case parseElems rest of Inl e \<Rightarrow> Inl e | Inr vs \<Rightarrow> Inr (parsed v # vs))"
proof (induction v arbitrary: rest)
  case (Bytes b)
  show ?case
  proof (cases "length b = 1 \<and> unat (hd b) \<le> 0x7F")
    case True
    then obtain c where c: "b = [c]" "unat c \<le> 0x7F"
      by (cases b) auto
    show ?thesis
      unfolding c(1) using c(2) by (simp add: splitItem_def split: sum.splits)
  next
    case False
    have "length b < 2 ^ 64"
      using Bytes.prems False by (simp split: if_splits)
    from splitItem_marshalSize_bytes [OF this, of rest]
    obtain c ls where "marshalSize 0x80 (length b) = c # ls"
      "splitItem c (ls @ b @ rest) = Inr (False, b, rest)"
      by blast
    then show ?thesis
      using False parseElems_cons_item [of "MarshalValue (Bytes b)" c "ls @ b" rest b]
      by (auto split: sum.splits)
  qed
next
  case (Array a)
  let ?body = "concat (map MarshalValue a)"
  have len: "length ?body < 2 ^ 64"
    using Array.prems length_body_le [of a] by simp
  have elems: "parseElems ?body = Inr (map parsed a)"
  proof (rule parseElems_concat)
    fix x rest
    assume x: "x \<in> set a"
    then have "length (MarshalValue x) < 2 ^ 64"
      using len length_MarshalValue_elem [of x a] by simp
    with x show "parseElems (MarshalValue x @ rest)
      = (case parseElems rest of Inl e \<Rightarrow> Inl e | Inr vs \<Rightarrow> Inr (parsed x # vs))"
      by (rule Array.IH)
  qed
  from splitItem_marshalSize_list [OF len, of rest]
  obtain c ls where "marshalSize 0xC0 (length ?body) = c # ls"
    "splitItem c (ls @ ?body @ rest) = Inr (True, ?body, rest)"
    by blast
  then show ?case
    using elems
      parseElems_cons_list [of "MarshalValue (Array a)" c "ls @ ?body" rest ?body "map parsed a"]
    by (simp add: Let_def split: sum.splits)
next
  case Null
  have "splitItem 0x80 ([] @ rest) = Inr (False, [], rest)"
    by (simp add: splitItem_def cut_def)
  then show ?case
    using parseElems_cons_item [of "MarshalValue Null" "0x80" "[]" rest "[]"]
    by (simp split: sum.splits)
next
  case ArrayNull
  have "splitItem 0xC0 ([] @ rest) = Inr (True, [], rest)"
    by (simp add: splitItem_def cut_def)
  then show ?case
    using parseElems_cons_list [of "MarshalValue ArrayNull" "0xC0" "[]" rest "[]" "[]"]
    by (simp split: sum.splits)
qed


lemma parseElems_Inr_Nil: "parseElems b = Inr [] \<Longrightarrow> b = []"
  by (cases b) (auto split: sum.splits prod.splits if_splits)

lemma parseElems_parseValue:
  "parseElems (c # r) =
     (case parseValue (c # r) of
        Inl e \<Rightarrow> Inl e
      | Inr (v, tail) \<Rightarrow> (case parseElems tail of Inl e \<Rightarrow> Inl e | Inr vs \<Rightarrow> Inr (v # vs)))"
  by (simp add: parseValue_def split: sum.splits prod.splits)

lemma MarshalValue_nonempty: "MarshalValue v \<noteq> []"
  by (cases v) (auto simp: marshalSize_def Let_def)

text \<open>Parsing the bytes of a value gives the value back, nulls read as empty.\<close>

lemma Parse_MarshalValue:
  assumes "length (MarshalValue v) < 2 ^ 64"
  shows "Parse (MarshalValue v) = Inr (parsed v)"
proof -
  obtain c r where cr: "MarshalValue v = c # r"
    using MarshalValue_nonempty [of v] by (cases "MarshalValue v") auto
  have "parseElems (MarshalValue v @ []) = Inr [parsed v]"
    using parseElems_MarshalValue [OF assms, of "[]"] by simp
  then have "parseElems (c # r) = Inr [parsed v]"
    using cr by simp
  then show ?thesis
    unfolding Parse_def cr parseElems_parseValue
    by (auto split: sum.splits prod.splits)
qed

subsection \<open>Reading back what was written\<close>

lemma decodeCommitted_map_Bytes: "decodeCommitted (map Bytes bs) = Inr bs"
  by (induction bs) simp_all

lemma parsed_map_Bytes: "map parsed (map Bytes bs) = map Bytes bs"
  by (induction bs) simp_all

lemma filter_nonempty: "[] \<notin> set cs \<Longrightarrow> filter (\<lambda>a. a \<noteq> []) cs = cs \<and> filter (\<lambda>a. a = []) cs = []"
  by (induction cs) auto

lemma parsed_MarshalRLPWith:
  assumes "[] \<notin> set (CommittedSeal i)"
  shows "parsed (MarshalRLPWith i)
    = Array [Array (map Bytes (Validators i)), Bytes (Seal i), Array (map Bytes (CommittedSeal i))]"
  using assms
  by (cases "CommittedSeal i = []")
    (simp_all add: MarshalRLPWith_eq parsed_map_Bytes filter_nonempty del: map_map)

lemma UnmarshalRLPFrom_parsed_MarshalRLPWith:
  assumes "\<forall>a \<in> set (Validators i). length a = 20" and "[] \<notin> set (CommittedSeal i)"
  shows "UnmarshalRLPFrom (parsed (MarshalRLPWith i)) = Inr i"
  using assms
  by (simp add: parsed_MarshalRLPWith UnmarshalRLPFrom_def
      decodeValidators_map_Bytes decodeCommitted_map_Bytes)

lemma UnmarshalRLP_MarshalRLPTo:
  assumes "\<forall>a \<in> set (Validators i). length a = 20" and "[] \<notin> set (CommittedSeal i)"
    and "length (MarshalRLPTo i []) < 2 ^ 64"
  shows "UnmarshalRLP (MarshalRLPTo i []) = Inr i"
  using assms Parse_MarshalValue [of "MarshalRLPWith i"]
  by (simp add: UnmarshalRLP_def MarshalRLPTo_def MarshalTo_def
      UnmarshalRLPFrom_parsed_MarshalRLPWith)

lemma getIbftExtra_putIbftExtra:
  assumes "\<forall>a \<in> set (Validators i). length a = 20" and "[] \<notin> set (CommittedSeal i)"
    and "length (ExtraData (fst (putIbftExtra h i))) < 2 ^ 64"
  shows "getIbftExtra (fst (putIbftExtra h i)) = Inr i"
proof -
  have "length (MarshalRLPTo i []) \<le> length (ExtraData (fst (putIbftExtra h i)))"
    by (simp add: putIbftExtra_ExtraData MarshalRLPTo_def MarshalTo_def)
  then have "UnmarshalRLP (MarshalRLPTo i []) = Inr i"
    using assms UnmarshalRLP_MarshalRLPTo by simp
  then show ?thesis
    by (simp add: getIbftExtra_def putIbftExtra_ExtraData IstanbulExtraVanity_def
        MarshalRLPTo_def MarshalTo_def)
qed


subsection \<open>Canonical form for hashing\<close>

lemma putIbftExtra_eq:
  "putIbftExtra h i =
     (h\<lparr>ExtraData := (if length (ExtraData h) < 32
                       then ExtraData h @ replicate (32 - length (ExtraData h)) 0
                       else take 32 (ExtraData h)) @ MarshalRLPTo i []\<rparr>, None)"
  by (simp add: putIbftExtra_def MarshalRLPTo_def MarshalTo_def IstanbulExtraVanity_def
      take_zeroBytes Let_def)

lemma putIbftExtra_putIbftExtra:
  "fst (putIbftExtra (fst (putIbftExtra h i)) j) = fst (putIbftExtra h j)"
  by (simp add: putIbftExtra_eq)

lemma getIbftExtra_Inr_validators:
  "getIbftExtra h = Inr extra \<Longrightarrow> \<forall>a \<in> set (Validators extra). length a = 20"
  by (auto simp: getIbftExtra_def UnmarshalRLP_def Let_def
      split: if_splits sum.splits dest!: UnmarshalRLPFrom_Inr_validators)

lemma filterIbftExtraForHash_None:
  assumes "filterIbftExtraForHash h = (h1, None)"
  shows "\<exists>extra. getIbftExtra h = Inr extra \<and> h1 = fst (initIbftExtra h (Validators extra))"
  using assms by (auto simp: filterIbftExtraForHash_def split: sum.splits)

lemma filterIbftExtraForHash_putIbftExtra:
  assumes "\<forall>a \<in> set (Validators i). length a = 20" and "[] \<notin> set (CommittedSeal i)"
    and "length (ExtraData (fst (putIbftExtra h i))) < 2 ^ 64"
  shows "filterIbftExtraForHash (fst (putIbftExtra h i))
    = (fst (putIbftExtra h \<lparr>Validators = Validators i, Seal = [], CommittedSeal = []\<rparr>), None)"
proof -
  have "getIbftExtra (fst (putIbftExtra h i)) = Inr i"
    using assms by (rule getIbftExtra_putIbftExtra)
  then show ?thesis
    by (simp add: filterIbftExtraForHash_def initIbftExtra_def putIbftExtra_putIbftExtra
        putIbftExtra_snd prod_eq_iff)
qed

lemma packFieldIntoIbftExtra_putIbftExtra:
  assumes "\<forall>a \<in> set (Validators i). length a = 20" and "[] \<notin> set (CommittedSeal i)"
    and "length (ExtraData (fst (putIbftExtra h i))) < 2 ^ 64"
  shows "packFieldIntoIbftExtra (fst (putIbftExtra h i)) updateFn
    = (fst (putIbftExtra h (updateFn i)), None)"
proof -
  have "getIbftExtra (fst (putIbftExtra h i)) = Inr i"
    using assms by (rule getIbftExtra_putIbftExtra)
  then show ?thesis
    by (simp add: packFieldIntoIbftExtra_def putIbftExtra_putIbftExtra putIbftExtra_snd
        prod_eq_iff)
qed

text \<open>
  C3. When \<open>filterIbftExtraForHash\<close> succeeds on a header, the field it leaves is the first
  32 bytes of the prior field followed by the encoding of the decoded validators with an
  empty seal and no committed seals, so it depends on nothing else of the prior field; and
  applying \<open>filterIbftExtraForHash\<close> again succeeds and leaves the very same header.
  In particular: initialise a header with validators \<open>vs\<close> (20 bytes each), set a seal, set
  committed seals (none of them empty), then filter; the header is again the freshly
  initialised one. (Fields are within the length the size prefix can hold.)
\<close>

theorem filterIbftExtraForHash_canonical:
  "(filterIbftExtraForHash h = (h1, None) \<longrightarrow>
      (\<exists>extra. getIbftExtra h = Inr extra
         \<and> h1 = fst (initIbftExtra h (Validators extra))
         \<and> ExtraData h1 = take 32 (ExtraData h)
              @ MarshalRLPTo \<lparr>Validators = Validators extra, Seal = [], CommittedSeal = []\<rparr> [])
      \<and> (length (ExtraData h1) < 2 ^ 64 \<longrightarrow> filterIbftExtraForHash h1 = (h1, None)))
   \<and> ((\<forall>a \<in> set vs. length a = 20) \<and> [] \<notin> set seals
        \<and> initIbftExtra h0 vs = (ha, ea)
        \<and> packSealIntoIbftExtra ha seal = (hb, eb)
        \<and> packCommittedSealIntoIbftExtra hb seals = (hc, ec)
        \<and> length (ExtraData ha) < 2 ^ 64 \<and> length (ExtraData hb) < 2 ^ 64
        \<and> length (ExtraData hc) < 2 ^ 64 \<longrightarrow>
      ea = None \<and> eb = None \<and> ec = None \<and> filterIbftExtraForHash hc = (ha, None))"
proof (intro conjI impI)
  assume f: "filterIbftExtraForHash h = (h1, None)"
  then obtain extra where extra: "getIbftExtra h = Inr extra"
    "h1 = fst (initIbftExtra h (Validators extra))"
    using filterIbftExtraForHash_None by blast
  have "32 \<le> length (ExtraData h)"
    using extra(1) by (rule getIbftExtra_Inr_length)
  then have "ExtraData h1 = take 32 (ExtraData h)
      @ MarshalRLPTo \<lparr>Validators = Validators extra, Seal = [], CommittedSeal = []\<rparr> []"
    using extra(2) by (simp add: initIbftExtra_def putIbftExtra_eq)
  with extra
  show "\<exists>extra. getIbftExtra h = Inr extra
         \<and> h1 = fst (initIbftExtra h (Validators extra))
         \<and> ExtraData h1 = take 32 (ExtraData h)
              @ MarshalRLPTo \<lparr>Validators = Validators extra, Seal = [], CommittedSeal = []\<rparr> []"
    by blast
next
  assume f: "filterIbftExtraForHash h = (h1, None)" and fits: "length (ExtraData h1) < 2 ^ 64"
  let ?R = "\<lambda>vs. \<lparr>Validators = vs, Seal = [], CommittedSeal = []\<rparr>"
  from f obtain extra where extra: "getIbftExtra h = Inr extra"
    "h1 = fst (putIbftExtra h (?R (Validators extra)))"
    using filterIbftExtraForHash_None unfolding initIbftExtra_def by blast
  have "filterIbftExtraForHash (fst (putIbftExtra h (?R (Validators extra))))
      = (fst (putIbftExtra h \<lparr>Validators = Validators (?R (Validators extra)), Seal = [],
           CommittedSeal = []\<rparr>), None)"
    using getIbftExtra_Inr_validators [OF extra(1)] fits extra(2)
    by (intro filterIbftExtraForHash_putIbftExtra) simp_all
  then show "filterIbftExtraForHash h1 = (h1, None)"
    using extra(2) by simp
next
  assume a: "(\<forall>a \<in> set vs. length a = 20) \<and> [] \<notin> set seals
        \<and> initIbftExtra h0 vs = (ha, ea)
        \<and> packSealIntoIbftExtra ha seal = (hb, eb)
        \<and> packCommittedSealIntoIbftExtra hb seals = (hc, ec)
        \<and> length (ExtraData ha) < 2 ^ 64 \<and> length (ExtraData hb) < 2 ^ 64
        \<and> length (ExtraData hc) < 2 ^ 64"
  let ?R0 = "\<lparr>Validators = vs, Seal = [], CommittedSeal = []\<rparr>"
  let ?R1 = "\<lparr>Validators = vs, Seal = seal, CommittedSeal = []\<rparr>"
  let ?R2 = "\<lparr>Validators = vs, Seal = seal, CommittedSeal = seals\<rparr>"
  have ha: "ha = fst (putIbftExtra h0 ?R0)" and ea: "ea = None"
    using a by (auto simp: initIbftExtra_def putIbftExtra_snd prod_eq_iff)
  have "packFieldIntoIbftExtra (fst (putIbftExtra h0 ?R0)) (\<lambda>extra. extra\<lparr>Seal := seal\<rparr>)
      = (fst (putIbftExtra h0 ((\<lambda>extra. extra\<lparr>Seal := seal\<rparr>) ?R0)), None)"
    using a ha by (intro packFieldIntoIbftExtra_putIbftExtra) simp_all
  then have hb: "hb = fst (putIbftExtra h0 ?R1)" and eb: "eb = None"
    using a ha by (auto simp: packSealIntoIbftExtra_def)
  have "packFieldIntoIbftExtra (fst (putIbftExtra h0 ?R1)) (\<lambda>extra. extra\<lparr>CommittedSeal := seals\<rparr>)
      = (fst (putIbftExtra h0 ((\<lambda>extra. extra\<lparr>CommittedSeal := seals\<rparr>) ?R1)), None)"
    using a hb by (intro packFieldIntoIbftExtra_putIbftExtra) simp_all
  then have hc: "hc = fst (putIbftExtra h0 ?R2)" and ec: "ec = None"
    using a hb by (auto simp: packCommittedSealIntoIbftExtra_def)
  have "filterIbftExtraForHash (fst (putIbftExtra h0 ?R2))
      = (fst (putIbftExtra h0 \<lparr>Validators = Validators ?R2, Seal = [], CommittedSeal = []\<rparr>), None)"
    using a hc by (intro filterIbftExtraForHash_putIbftExtra) simp_all
  then have "filterIbftExtraForHash hc = (ha, None)"
    using ha hc by simp
  with ea eb ec show "ea = None" "eb = None" "ec = None" "filterIbftExtraForHash hc = (ha, None)"
    by simp_all
qed

theorem filterIbftExtraForHash_canonical_witness:
  "filterIbftExtraForHash
      (fst (packCommittedSealIntoIbftExtra
        (fst (packSealIntoIbftExtra
          (fst (initIbftExtra vanityHeader [addrA, addrB, addrC])) sigP)) [sig1, sig2]))
     = (fst (initIbftExtra vanityHeader [addrA, addrB, addrC]), None)
   \<and> filterIbftExtraForHash (fst (initIbftExtra vanityHeader [addrA, addrB, addrC]))
     = (fst (initIbftExtra vanityHeader [addrA, addrB, addrC]), None)
   \<and> ExtraData (fst (initIbftExtra vanityHeader [addrA, addrB, addrC]))
     = [0x70, 0x6F, 0x6C, 0x79] @ replicate 28 0
        @ MarshalRLPTo \<lparr>Validators = [addrA, addrB, addrC], Seal = [], CommittedSeal = []\<rparr> []"
proof -
  let ?ha = "fst (initIbftExtra vanityHeader [addrA, addrB, addrC])"
  let ?hb = "fst (packSealIntoIbftExtra ?ha sigP)"
  let ?hc = "fst (packCommittedSealIntoIbftExtra ?hb [sig1, sig2])"
  have addrs: "\<forall>a \<in> set [addrA, addrB, addrC]. length a = 20"
    by (simp add: addrA_def addrB_def addrC_def)
  have sigs: "[] \<notin> set [sig1, sig2]"
    by (simp add: sig1_def sig2_def)
  have "length (ExtraData ?ha) = 101"
    by code_simp
  then have la: "length (ExtraData ?ha) < 2 ^ 64"
    by simp
  have "length (ExtraData ?hb) = 167"
    by code_simp
  then have lb: "length (ExtraData ?hb) < 2 ^ 64"
    by simp
  have "length (ExtraData ?hc) = 303"
    by code_simp
  then have lc: "length (ExtraData ?hc) < 2 ^ 64"
    by simp
  have scenario: "filterIbftExtraForHash ?hc = (?ha, None)"
    using addrs sigs la lb lc
      filterIbftExtraForHash_canonical [where ?vs = "[addrA, addrB, addrC]"
        and ?seals = "[sig1, sig2]" and ?h0.0 = vanityHeader and ?ha = ?ha
        and ?ea = "snd (initIbftExtra vanityHeader [addrA, addrB, addrC])"
        and ?seal = sigP and ?hb = ?hb and ?eb = "snd (packSealIntoIbftExtra ?ha sigP)"
        and ?hc = ?hc and ?ec = "snd (packCommittedSealIntoIbftExtra ?hb [sig1, sig2])",
        THEN conjunct2]
    by simp
  have again: "filterIbftExtraForHash ?ha = (?ha, None)"
    using scenario la filterIbftExtraForHash_canonical [where ?h = ?hc and ?h1.0 = ?ha, THEN conjunct1]
    by blast
  have bytes: "ExtraData ?ha = [0x70, 0x6F, 0x6C, 0x79] @ replicate 28 0
        @ MarshalRLPTo \<lparr>Validators = [addrA, addrB, addrC], Seal = [], CommittedSeal = []\<rparr> []"
    by code_simp
  show ?thesis
    using scenario again bytes by blast
qed

end
